theory Spec2Isabelle
  imports Main "HOL-Library.Char_ord" "HOL-Library.List_Lexorder"
begin

section \<open>Seccomp profiles\<close>

text \<open>
  A seccomp profile is the JSON document loaded by \<^verbatim>\<open>load_seccomp_profile\<close>: a
  dictionary whose optional key \<^verbatim>\<open>syscalls\<close> holds a list of rule groups, each a
  dictionary whose optional key \<^verbatim>\<open>names\<close> holds a list of syscall names. The keys
  the minimizer never reads (\<^verbatim>\<open>action\<close>, \<^verbatim>\<open>args\<close>, \<^verbatim>\<open>defaultAction\<close>, ...) are
  carried along as key/text pairs. A missing key is \<open>None\<close>, as \<^verbatim>\<open>dict.get\<close> with its
  default distinguishes it. Syscall names are strings, ordered as Python orders
  them: lexicographically by character code.
\<close>

record syscall_group =
  names :: "string list option"
  group_other :: "(string \<times> string) list"

record profile =
  syscalls :: "syscall_group list option"
  profile_other :: "(string \<times> string) list"

text \<open>\<^verbatim>\<open>profile.get('syscalls', [])\<close> and \<^verbatim>\<open>syscall_group.get('names', [])\<close>.\<close>

definition get_syscalls :: "profile \<Rightarrow> syscall_group list" where
  "get_syscalls p = (case syscalls p of None \<Rightarrow> [] | Some gs \<Rightarrow> gs)"

definition get_names :: "syscall_group \<Rightarrow> string list" where
  "get_names g = (case names g of None \<Rightarrow> [] | Some ns \<Rightarrow> ns)"

text \<open>
  The list \<^verbatim>\<open>syscalls\<close> that the loop of \<^verbatim>\<open>get_all_syscalls\<close> builds with
  \<^verbatim>\<open>extend\<close>, before deduplication and sorting.
\<close>

fun extend_all :: "string list \<Rightarrow> syscall_group list \<Rightarrow> string list" where
  "extend_all acc [] = acc"
| "extend_all acc (g # gs) = extend_all (acc @ get_names g) gs"

text \<open>\<^verbatim>\<open>sorted(list(set(syscalls)))\<close>: duplicates dropped, then sorted.\<close>

definition get_all_syscalls :: "profile \<Rightarrow> string list" where
  "get_all_syscalls p = sort (remdups (extend_all [] (get_syscalls p)))"

text \<open>
  The body of the loop of \<^verbatim>\<open>remove_syscall_from_profile\<close>: when the group has the
  key \<^verbatim>\<open>names\<close> and the name is in the list, \<^verbatim>\<open>list.remove\<close> deletes its first
  occurrence; otherwise the group is left as it is.
\<close>

definition remove_from_group :: "string \<Rightarrow> syscall_group \<Rightarrow> syscall_group" where
  "remove_from_group syscall_name g =
     (case names g of
        None \<Rightarrow> g
      | Some ns \<Rightarrow>
          if syscall_name \<in> set ns then g\<lparr>names := Some (remove1 syscall_name ns)\<rparr> else g)"

text \<open>
  The deep copy (\<^verbatim>\<open>json.loads(json.dumps(profile))\<close>) is the identity on values;
  a profile without the key \<^verbatim>\<open>syscalls\<close> is returned as it is.
\<close>

definition remove_syscall_from_profile :: "profile \<Rightarrow> string \<Rightarrow> profile" where
  "remove_syscall_from_profile p syscall_name =
     (case syscalls p of
        None \<Rightarrow> p
      | Some gs \<Rightarrow> p\<lparr>syscalls := Some (map (remove_from_group syscall_name) gs)\<rparr>)"

section \<open>The container runtime and the web workload\<close>

text \<open>
  What the outside world answers during one trial. A \<^verbatim>\<open>subprocess.run\<close> call
  completes with a return code, exceeds its timeout, or raises another exception.
\<close>

datatype proc = Completed int | TimeoutExpired | Raised

record docker_world =
  run_proc :: proc
  inspect_proc :: proc
  state_running :: "bool option"
  logs_proc :: proc

text \<open>
  \<^verbatim>\<open>run_container_with_profile\<close>: \<^verbatim>\<open>docker run\<close>, the settle delay, then
  \<^verbatim>\<open>docker inspect\<close>; \<open>state_running\<close> is \<^verbatim>\<open>container_info[0]['State']['Running']\<close>,
  \<open>None\<close> when parsing or indexing the inspect output raises. Both \<^verbatim>\<open>except\<close>
  clauses return \<^verbatim>\<open>False\<close>.
\<close>

definition run_container_with_profile :: "docker_world \<Rightarrow> bool" where
  "run_container_with_profile d =
     (case run_proc d of
        TimeoutExpired \<Rightarrow> False
      | Raised \<Rightarrow> False
      | Completed returncode \<Rightarrow>
          if returncode \<noteq> 0 then False
          else (case inspect_proc d of
                  TimeoutExpired \<Rightarrow> False
                | Raised \<Rightarrow> False
                | Completed inspect_returncode \<Rightarrow>
                    if inspect_returncode \<noteq> 0 then False
                    else (case state_running d of
                            None \<Rightarrow> False
                          | Some running \<Rightarrow>
                              if \<not> running
                              then (case logs_proc d of
                                      Completed _ \<Rightarrow> False
                                    | TimeoutExpired \<Rightarrow> False
                                    | Raised \<Rightarrow> False)
                              else True)))"

text \<open>
  The branch of \<^verbatim>\<open>run_container_with_profile\<close> that a trial takes, named after
  the log line it prints.
\<close>

datatype launch_state =
  StartFailure | LaunchTimeout | LaunchException | InspectFailure | NotRunning | Running

definition launch :: "docker_world \<Rightarrow> launch_state" where
  "launch d =
     (case run_proc d of
        TimeoutExpired \<Rightarrow> LaunchTimeout
      | Raised \<Rightarrow> LaunchException
      | Completed returncode \<Rightarrow>
          if returncode \<noteq> 0 then StartFailure
          else (case inspect_proc d of
                  TimeoutExpired \<Rightarrow> LaunchTimeout
                | Raised \<Rightarrow> LaunchException
                | Completed inspect_returncode \<Rightarrow>
                    if inspect_returncode \<noteq> 0 then InspectFailure
                    else (case state_running d of
                            None \<Rightarrow> LaunchException
                          | Some running \<Rightarrow>
                              if \<not> running
                              then (case logs_proc d of
                                      Completed _ \<Rightarrow> NotRunning
                                    | TimeoutExpired \<Rightarrow> LaunchTimeout
                                    | Raised \<Rightarrow> LaunchException)
                              else Running)))"

text \<open>One request of the verifier: a response with a status code, or an exception.\<close>

datatype http = Status int | RequestException | OtherException

record web_world =
  get_main :: http
  post_write :: http
  post_api :: http

text \<open>
  \<^verbatim>\<open>test_web_functionality\<close>: three requests in order, each required to answer
  200; the first failure returns \<^verbatim>\<open>False\<close>, and so does any exception.
\<close>

definition test_web_functionality :: "web_world \<Rightarrow> bool" where
  "test_web_functionality w =
     (case get_main w of
        Status s1 \<Rightarrow>
          if s1 \<noteq> 200 then False
          else (case post_write w of
                  Status s2 \<Rightarrow>
                    if s2 \<noteq> 200 then False
                    else (case post_api w of
                            Status s3 \<Rightarrow> if s3 \<noteq> 200 then False else True
                          | RequestException \<Rightarrow> False
                          | OtherException \<Rightarrow> False)
                | RequestException \<Rightarrow> False
                | OtherException \<Rightarrow> False)
      | RequestException \<Rightarrow> False
      | OtherException \<Rightarrow> False)"

text \<open>A request that the verifier reaches raises an exception.\<close>

definition verifier_raises :: "web_world \<Rightarrow> bool" where
  "verifier_raises w =
     (case get_main w of
        Status s1 \<Rightarrow>
          if s1 \<noteq> 200 then False
          else (case post_write w of
                  Status s2 \<Rightarrow>
                    if s2 \<noteq> 200 then False
                    else (case post_api w of Status s3 \<Rightarrow> False | _ \<Rightarrow> True)
                | _ \<Rightarrow> True)
      | _ \<Rightarrow> True)"

section \<open>The controller's state and the policy files\<close>

text \<open>
  A policy file holds a complete document, or what a failed write left of one.
  \<^verbatim>\<open>open(filepath, 'w')\<close> can fail before the file is touched, and \<^verbatim>\<open>json.dump\<close>
  can fail after it was truncated.
\<close>

datatype policy_file = Doc profile | Partial

datatype save_result = Saved | OpenFailed | WriteFailed

datatype error = FileNotFoundError string | JSONDecodeError string | OSError string | RuntimeError

datatype event =
    Testing nat nat string
  | Save string
  | StopContainer
  | Launch string
  | Verify
  | Remove string

record state =
  working_profile :: profile
  necessary_syscalls :: "string set"
  files :: "string \<rightharpoonup> policy_file"
  trace :: "event list"

definition emit :: "event \<Rightarrow> state \<Rightarrow> state" where
  "emit e st = st\<lparr>trace := trace st @ [e]\<rparr>"

definition load_seccomp_profile :: "(string \<rightharpoonup> policy_file) \<Rightarrow> string \<Rightarrow> error + profile" where
  "load_seccomp_profile fs filepath =
     (case fs filepath of
        None \<Rightarrow> Inl (FileNotFoundError filepath)
      | Some Partial \<Rightarrow> Inl (JSONDecodeError filepath)
      | Some (Doc p) \<Rightarrow> Inr p)"

text \<open>\<^verbatim>\<open>save_seccomp_profile\<close>; the failure carries the state the exception leaves.\<close>

definition save_seccomp_profile ::
  "save_result \<Rightarrow> profile \<Rightarrow> string \<Rightarrow> state \<Rightarrow> (error \<times> state) + state" where
  "save_seccomp_profile r p filepath st =
     (case r of
        Saved \<Rightarrow> Inr (emit (Save filepath) (st\<lparr>files := (files st)(filepath \<mapsto> Doc p)\<rparr>))
      | OpenFailed \<Rightarrow> Inl (OSError filepath, st)
      | WriteFailed \<Rightarrow> Inl (OSError filepath, st\<lparr>files := (files st)(filepath \<mapsto> Partial)\<rparr>))"

text \<open>\<^verbatim>\<open>stop_container\<close> catches every exception; it changes no policy and no file.\<close>

definition stop_container :: "state \<Rightarrow> state" where
  "stop_container st = emit StopContainer st"

text \<open>\<^verbatim>\<open>os.remove\<close> under a bare \<^verbatim>\<open>except: pass\<close>.\<close>

definition os_remove :: "bool \<Rightarrow> string \<Rightarrow> state \<Rightarrow> state" where
  "os_remove ok filepath st =
     (if ok then emit (Remove filepath) (st\<lparr>files := (files st)(filepath := None)\<rparr>) else st)"

section \<open>The minimization controller\<close>

definition default_profile_path :: string where
  "default_profile_path = ''seccomp-default.json''"

definition working_profile_path :: string where
  "working_profile_path = ''seccomp.json''"

definition minimized_profile_path :: string where
  "minimized_profile_path = ''seccomp-minimized.json''"

definition test_profile_path :: "string \<Rightarrow> string" where
  "test_profile_path syscall = ''seccomp_test_'' @ syscall @ ''.json''"

text \<open>
  What the world answers during the trial of one candidate: whether the two saves
  and the final \<^verbatim>\<open>os.remove\<close> succeed, and what the runtime and the service answer.
\<close>

record trial_world =
  save_trial :: save_result
  docker :: docker_world
  web :: web_world
  save_working :: save_result
  remove_trial :: bool

text \<open>
  The \<^verbatim>\<open>try\<close> block of the loop body. The working profile is assigned before it is
  saved, so a failing save leaves the assignment in place when it raises.
\<close>

definition try_block ::
  "trial_world \<Rightarrow> string \<Rightarrow> profile \<Rightarrow> state \<Rightarrow> (error \<times> state) + state" where
  "try_block tw syscall test_profile st =
     (let st1 = stop_container st;
          st2 = emit (Launch (test_profile_path syscall)) st1
      in if run_container_with_profile (docker tw)
         then (let st3 = emit Verify st2
               in if test_web_functionality (web tw)
                  then (let st4 = st3\<lparr>working_profile := test_profile\<rparr>
                        in save_seccomp_profile (save_working tw) (working_profile st4)
                             working_profile_path st4)
                  else Inr (st3\<lparr>necessary_syscalls := insert syscall (necessary_syscalls st3)\<rparr>))
         else Inr (st2\<lparr>necessary_syscalls := insert syscall (necessary_syscalls st2)\<rparr>))"

text \<open>
  One iteration of the \<^verbatim>\<open>for\<close> loop, for the pair \<open>(i, syscall)\<close> that
  \<^verbatim>\<open>enumerate(all_syscalls)\<close> yields; \<open>n\<close> is \<^verbatim>\<open>len(all_syscalls)\<close>. The trial
  profile is saved before the \<^verbatim>\<open>try\<close>: an exception there leaves the function.
  Inside the \<^verbatim>\<open>try\<close>, \<^verbatim>\<open>except Exception\<close> marks the syscall necessary, and the
  \<^verbatim>\<open>finally\<close> clause stops the container and deletes the trial file.
\<close>

definition iteration ::
  "(string \<Rightarrow> profile \<Rightarrow> trial_world) \<Rightarrow> nat \<Rightarrow> state \<Rightarrow> nat \<times> string
     \<Rightarrow> (error \<times> state) + state" where
  "iteration tws n st c =
     (let i = fst c; syscall = snd c;
          st1 = emit (Testing (i + 1) n syscall) st;
          test_profile = remove_syscall_from_profile (working_profile st1) syscall;
          tw = tws syscall test_profile
      in case save_seccomp_profile (save_trial tw) test_profile (test_profile_path syscall) st1 of
           Inl e \<Rightarrow> Inl e
         | Inr st2 \<Rightarrow>
             (let st3 = (case try_block tw syscall test_profile st2 of
                           Inr s \<Rightarrow> s
                         | Inl (e, s) \<Rightarrow>
                             s\<lparr>necessary_syscalls := insert syscall (necessary_syscalls s)\<rparr>);
                  st4 = stop_container st3
              in Inr (os_remove (remove_trial tw) (test_profile_path syscall) st4)))"

fun loop ::
  "(string \<Rightarrow> profile \<Rightarrow> trial_world) \<Rightarrow> nat \<Rightarrow> state \<Rightarrow> (nat \<times> string) list
     \<Rightarrow> (error \<times> state) + state" where
  "loop tws n st [] = Inr st"
| "loop tws n st (c # cs) =
     (case iteration tws n st c of
        Inl e \<Rightarrow> Inl e
      | Inr st' \<Rightarrow> loop tws n st' cs)"

text \<open>
  \<^verbatim>\<open>stop_all_containers\<close> catches \<^verbatim>\<open>CalledProcessError\<close> only; any other exception
  of its \<^verbatim>\<open>subprocess.run\<close> calls leaves the function.
\<close>

datatype stop_all_result = AllStopped | NoneRunning | StopFailed | StopRaised

definition stop_all_containers :: "stop_all_result \<Rightarrow> error + unit" where
  "stop_all_containers r = (case r of StopRaised \<Rightarrow> Inl RuntimeError | _ \<Rightarrow> Inr ())"

record world =
  stop_all :: stop_all_result
  save_initial :: save_result
  trial :: "string \<Rightarrow> profile \<Rightarrow> trial_world"
  save_final :: save_result

text \<open>
  \<^verbatim>\<open>minimize_seccomp_profile\<close>, from the files \<open>fs\<close> it finds. The candidate list
  \<^verbatim>\<open>all_syscalls\<close> is computed once, before the loop.
\<close>

definition minimize_seccomp_profile :: "world \<Rightarrow> (string \<rightharpoonup> policy_file) \<Rightarrow> error + state" where
  "minimize_seccomp_profile w fs =
     (case stop_all_containers (stop_all w) of
        Inl e \<Rightarrow> Inl e
      | Inr _ \<Rightarrow>
     (case load_seccomp_profile fs default_profile_path of
        Inl e \<Rightarrow> Inl e
      | Inr default_profile \<Rightarrow>
     (let st0 = \<lparr>working_profile = default_profile, necessary_syscalls = {},
                 files = fs, trace = []\<rparr>
      in case save_seccomp_profile (save_initial w) (working_profile st0)
                working_profile_path st0 of
           Inl e \<Rightarrow> Inl (fst e)
         | Inr st1 \<Rightarrow>
        (let all_syscalls = get_all_syscalls (working_profile st1)
         in case loop (trial w) (length all_syscalls) st1 (enumerate 0 all_syscalls) of
              Inl e \<Rightarrow> Inl (fst e)
            | Inr st2 \<Rightarrow>
                (let st3 = stop_container st2
                 in case save_seccomp_profile (save_final w) (working_profile st3)
                           minimized_profile_path st3 of
                      Inl e \<Rightarrow> Inl (fst e)
                    | Inr st4 \<Rightarrow> Inr st4)))))"

section \<open>Notions used by the properties\<close>

text \<open>
  The names of a profile in document order, repetitions kept: the list that
  \<^verbatim>\<open>get_all_syscalls\<close> collects before it drops duplicates and sorts.
\<close>

definition all_names :: "profile \<Rightarrow> string list" where
  "all_names p = concat (map get_names (get_syscalls p))"

text \<open>No rule group lists a name twice.\<close>

definition groups_distinct :: "profile \<Rightarrow> bool" where
  "groups_distinct p = list_all (\<lambda>g. distinct (get_names g)) (get_syscalls p)"

text \<open>The state an iteration ends in, whether it returned or raised.\<close>

definition result_state :: "(error \<times> state) + state \<Rightarrow> state" where
  "result_state r = (case r of Inl e \<Rightarrow> snd e | Inr s \<Rightarrow> s)"

text \<open>
  A trial in which an exception is raised: by the launch command (its timeout
  included), by the running-state probe, or by a request of the verifier.
\<close>

definition trial_raises :: "trial_world \<Rightarrow> bool" where
  "trial_raises tw =
     (launch (docker tw) = LaunchTimeout \<or> launch (docker tw) = LaunchException
      \<or> (launch (docker tw) = Running \<and> verifier_raises (web tw)))"

text \<open>The \<^verbatim>\<open>Testing syscall i/n: name\<close> lines of a trace, one per iteration.\<close>

definition testing_events :: "event list \<Rightarrow> event list" where
  "testing_events es = filter (\<lambda>e. case e of Testing i n c \<Rightarrow> True | _ \<Rightarrow> False) es"

text \<open>The candidates of a trace, in the order in which they were tried.\<close>

definition candidates_tried :: "event list \<Rightarrow> string list" where
  "candidates_tried es = concat (map (\<lambda>e. case e of Testing i n c \<Rightarrow> [c] | _ \<Rightarrow> []) es)"

text \<open>
  The state in which \<^verbatim>\<open>minimize_seccomp_profile\<close> enters its loop, having loaded
  the baseline \<open>p\<close> from the files \<open>fs\<close> and saved it as the working profile.
\<close>

definition entry_state :: "(string \<rightharpoonup> policy_file) \<Rightarrow> profile \<Rightarrow> state" where
  "entry_state fs p = emit (Save working_profile_path)
     \<lparr>working_profile = p, necessary_syscalls = {},
      files = fs(working_profile_path \<mapsto> Doc p), trace = []\<rparr>"

text \<open>
  The condition under which the loop body commits: the container runs and the
  verifier passes. The profile the loop holds after the trial of one candidate:
  the trial profile, built from the profile held before, when the trial passes,
  and the profile held before otherwise.
\<close>

definition trial_passes :: "trial_world \<Rightarrow> bool" where
  "trial_passes tw \<longleftrightarrow>
     run_container_with_profile (docker tw) \<and> test_web_functionality (web tw)"

definition commit_step ::
  "(string \<Rightarrow> profile \<Rightarrow> trial_world) \<Rightarrow> profile \<Rightarrow> string \<Rightarrow> profile" where
  "commit_step tws working syscall =
     (if trial_passes (tws syscall (remove_syscall_from_profile working syscall))
      then remove_syscall_from_profile working syscall else working)"

section \<open>Example profiles and worlds\<close>

definition group_of :: "string list \<Rightarrow> syscall_group" where
  "group_of ns = \<lparr>names = Some ns, group_other = [(''action'', ''SCMP_ACT_ALLOW'')]\<rparr>"

definition profile_of :: "string list list \<Rightarrow> profile" where
  "profile_of nss = \<lparr>syscalls = Some (map group_of nss),
     profile_other = [(''defaultAction'', ''SCMP_ACT_ERRNO'')]\<rparr>"

text \<open>A baseline of one group that allows read and write.\<close>

definition two_calls :: profile where
  "two_calls = profile_of [[''read'', ''write'']]"

text \<open>A baseline of two groups that allows read, write, openat, futex and socket.\<close>

definition five_calls :: profile where
  "five_calls = profile_of [[''read'', ''write'', ''openat''], [''futex'', ''socket'']]"

definition fs_of :: "profile \<Rightarrow> (string \<rightharpoonup> policy_file)" where
  "fs_of p = [default_profile_path \<mapsto> Doc p]"

definition ok_docker :: docker_world where
  "ok_docker = \<lparr>run_proc = Completed 0, inspect_proc = Completed 0,
     state_running = Some True, logs_proc = Completed 0\<rparr>"

definition ok_web :: web_world where
  "ok_web = \<lparr>get_main = Status 200, post_write = Status 200, post_api = Status 200\<rparr>"

definition passing_trial :: trial_world where
  "passing_trial = \<lparr>save_trial = Saved, docker = ok_docker, web = ok_web,
     save_working = Saved, remove_trial = True\<rparr>"

text \<open>Every trial starts and passes verification.\<close>

definition all_pass :: world where
  "all_pass = \<lparr>stop_all = NoneRunning, save_initial = Saved,
     trial = (\<lambda>c p. passing_trial), save_final = Saved\<rparr>"

text \<open>Every trial starts; the main page answers 500 unless the trial profile allows futex.\<close>

definition needs_futex :: world where
  "needs_futex = \<lparr>stop_all = NoneRunning, save_initial = Saved,
     trial = (\<lambda>c p. if ''futex'' \<in> set (get_all_syscalls p) then passing_trial
                     else passing_trial\<lparr>web := ok_web\<lparr>get_main := Status 500\<rparr>\<rparr>),
     save_final = Saved\<rparr>"

text \<open>Writing a trial profile fails.\<close>

definition trial_disk_full :: world where
  "trial_disk_full = \<lparr>stop_all = NoneRunning, save_initial = Saved,
     trial = (\<lambda>c p. passing_trial\<lparr>save_trial := WriteFailed\<rparr>), save_final = Saved\<rparr>"

text \<open>The launch command of every trial exceeds its timeout.\<close>

definition launch_times_out :: world where
  "launch_times_out = \<lparr>stop_all = NoneRunning, save_initial = Saved,
     trial = (\<lambda>c p. passing_trial\<lparr>docker := ok_docker\<lparr>run_proc := TimeoutExpired\<rparr>\<rparr>),
     save_final = Saved\<rparr>"

text \<open>Writing the trial profile fails for the candidate write only.\<close>

definition write_trial_unwritable :: world where
  "write_trial_unwritable = \<lparr>stop_all = NoneRunning, save_initial = Saved,
     trial = (\<lambda>c p. if c = ''write'' then passing_trial\<lparr>save_trial := OpenFailed\<rparr>
                     else passing_trial),
     save_final = Saved\<rparr>"

text \<open>Every trial passes, and the working profile cannot be written after a commit.\<close>

definition commit_unwritable :: world where
  "commit_unwritable = \<lparr>stop_all = NoneRunning, save_initial = Saved,
     trial = (\<lambda>c p. passing_trial\<lparr>save_working := OpenFailed\<rparr>), save_final = Saved\<rparr>"

text \<open>Every trial passes, and the trial files are not deleted afterwards.\<close>

definition trial_files_kept :: world where
  "trial_files_kept = \<lparr>stop_all = NoneRunning, save_initial = Saved,
     trial = (\<lambda>c p. passing_trial\<lparr>remove_trial := False\<rparr>), save_final = Saved\<rparr>"

section \<open>Properties of the profile operations\<close>

lemma extend_all_concat: "extend_all acc gs = acc @ concat (map get_names gs)"
  by (induction gs arbitrary: acc) simp_all

lemma set_get_all_syscalls: "set (get_all_syscalls p) = set (all_names p)"
  by (simp add: get_all_syscalls_def all_names_def extend_all_concat)

lemma length_get_all_syscalls: "length (get_all_syscalls p) = card (set (all_names p))"
  by (simp add: get_all_syscalls_def all_names_def extend_all_concat length_remdups_card_conv)

lemma get_all_syscalls_sorted_set:
  "get_all_syscalls p = sorted_list_of_set (set (all_names p))"
  unfolding get_all_syscalls_def all_names_def extend_all_concat
  by (simp only: append_Nil sorted_list_of_set_sort_remdups)

lemma get_names_remove_from_group:
  "get_names (remove_from_group n g) = remove1 n (get_names g)"
  by (auto simp: remove_from_group_def get_names_def remove1_idem split: option.splits)

lemma get_syscalls_remove:
  "get_syscalls (remove_syscall_from_profile p n) = map (remove_from_group n) (get_syscalls p)"
  by (simp add: remove_syscall_from_profile_def get_syscalls_def split: option.splits)

lemma all_names_remove:
  "all_names (remove_syscall_from_profile p n) =
     concat (map (remove1 n \<circ> get_names) (get_syscalls p))"
  by (simp add: all_names_def get_syscalls_remove get_names_remove_from_group comp_def)

lemma set_all_names_remove_subset:
  "set (all_names (remove_syscall_from_profile p n)) \<subseteq> set (all_names p)"
  unfolding all_names_remove using set_remove1_subset by (fastforce simp: all_names_def)

lemma set_all_names_remove_other:
  "m \<noteq> n \<Longrightarrow>
   m \<in> set (all_names (remove_syscall_from_profile p n)) \<longleftrightarrow> m \<in> set (all_names p)"
  unfolding all_names_remove by (auto simp: all_names_def)

text \<open>
  Where no group lists a name twice, removal takes the name out of the flattened
  set, leaves every group without a repetition, and is idempotent.
\<close>

lemma set_all_names_remove_distinct:
  "groups_distinct p \<Longrightarrow>
   set (all_names (remove_syscall_from_profile p n)) = set (all_names p) - {n}"
  unfolding all_names_remove by (auto simp: all_names_def groups_distinct_def list_all_iff)

lemma groups_distinct_remove:
  "groups_distinct p \<Longrightarrow> groups_distinct (remove_syscall_from_profile p n)"
  by (auto simp: groups_distinct_def list_all_iff get_syscalls_remove get_names_remove_from_group)

lemma distinct_all_names_groups: "distinct (all_names p) \<Longrightarrow> groups_distinct p"
proof -
  assume d: "distinct (all_names p)"
  have "distinct (get_names g)" if "g \<in> set (get_syscalls p)" for g
  proof -
    from that have "get_names g \<in> set (map get_names (get_syscalls p))" by simp
    with d show ?thesis unfolding all_names_def distinct_concat_iff by blast
  qed
  then show ?thesis by (simp add: groups_distinct_def list_all_iff)
qed

lemma remove_from_group_idem_distinct:
  "distinct (get_names g) \<Longrightarrow>
   remove_from_group n (remove_from_group n g) = remove_from_group n g"
  by (auto simp: remove_from_group_def get_names_def split: option.splits)

lemma remove_syscall_idem_distinct:
  assumes "groups_distinct p"
  shows "remove_syscall_from_profile (remove_syscall_from_profile p n) n
     = remove_syscall_from_profile p n"
proof (cases "syscalls p")
  case None
  then show ?thesis by (simp add: remove_syscall_from_profile_def)
next
  case (Some gs)
  with assms have "\<forall>g \<in> set gs. distinct (get_names g)"
    by (simp add: groups_distinct_def list_all_iff get_syscalls_def)
  then have "map (remove_from_group n \<circ> remove_from_group n) gs = map (remove_from_group n) gs"
    by (simp add: remove_from_group_idem_distinct)
  with Some show ?thesis by (simp add: remove_syscall_from_profile_def)
qed

lemma remove1_first_occurrence:
  "remove1 n ns = takeWhile (\<lambda>x. x \<noteq> n) ns @ tl (dropWhile (\<lambda>x. x \<noteq> n) ns)"
  by (induction ns) auto

lemma count_list_remove1: "n \<in> set ns \<Longrightarrow> count_list (remove1 n ns) n = count_list ns n - 1"
  by (induction ns) auto

lemma count_list_pos_mem: "0 < count_list ns n \<Longrightarrow> n \<in> set ns"
  by (induction ns) (auto split: if_splits)

lemmas profile_defs = get_all_syscalls_def get_syscalls_def get_names_def
  remove_syscall_from_profile_def remove_from_group_def

lemmas fixture_defs = group_of_def profile_of_def two_calls_def five_calls_def fs_of_def ok_docker_def ok_web_def
  passing_trial_def all_pass_def needs_futex_def trial_disk_full_def launch_times_out_def
  write_trial_unwritable_def commit_unwritable_def trial_files_kept_def

text \<open>
  C1: the flattened syscall set of \<^verbatim>\<open>remove_syscall_from_profile(P, n)\<close> is that of
  \<open>P\<close> without \<open>n\<close>. The code does not do this for a group that lists the name
  twice: \<^verbatim>\<open>list.remove\<close> deletes one occurrence, and the name stays in the
  flattened set of the returned profile.
\<close>

theorem removed_name_still_flattened:
  "get_all_syscalls (profile_of [[''read'', ''read'', ''write'']]) = [''read'', ''write'']
   \<and> get_all_syscalls (remove_syscall_from_profile (profile_of [[''read'', ''read'', ''write'']]) ''read'')
       = [''read'', ''write'']
   \<and> set (get_all_syscalls (remove_syscall_from_profile (profile_of [[''read'', ''read'', ''write'']]) ''read''))
       \<noteq> set (get_all_syscalls (profile_of [[''read'', ''read'', ''write'']])) - {''read''}"
  by (simp add: profile_defs fixture_defs)

text \<open>
  C5: \<^verbatim>\<open>remove_syscall_from_profile\<close> applied twice with one name gives what one
  application gives. On a group that lists the name twice the second application
  deletes the second occurrence, so the two results differ.
\<close>

theorem second_removal_changes_profile:
  "remove_syscall_from_profile (profile_of [[''read'', ''read'', ''write'']]) ''read''
     = profile_of [[''read'', ''write'']]
   \<and> remove_syscall_from_profile
       (remove_syscall_from_profile (profile_of [[''read'', ''read'', ''write'']]) ''read'') ''read''
     = profile_of [[''write'']]
   \<and> remove_syscall_from_profile
       (remove_syscall_from_profile (profile_of [[''read'', ''read'', ''write'']]) ''read'') ''read''
     \<noteq> remove_syscall_from_profile (profile_of [[''read'', ''read'', ''write'']]) ''read''"
  by (simp add: profile_defs fixture_defs)

text \<open>
  C10: when a rule group of the profile lists the name more than once,
  \<^verbatim>\<open>remove_syscall_from_profile\<close> deletes the first occurrence in that group and no
  other: the group's list is the part before the first occurrence followed by the
  part after it, the name occurs in it one time less, and the flattened syscall set
  of the returned profile still contains the name.
\<close>

theorem duplicate_survives_removal:
  assumes "i < length (get_syscalls p)"
    and "names (get_syscalls p ! i) = Some ns"
    and "1 < count_list ns n"
  shows "names (get_syscalls (remove_syscall_from_profile p n) ! i)
       = Some (takeWhile (\<lambda>x. x \<noteq> n) ns @ tl (dropWhile (\<lambda>x. x \<noteq> n) ns))
     \<and> count_list (get_names (get_syscalls (remove_syscall_from_profile p n) ! i)) n
       = count_list ns n - 1
     \<and> n \<in> set (get_all_syscalls (remove_syscall_from_profile p n))"
proof -
  let ?g = "get_syscalls p ! i"
  let ?g' = "get_syscalls (remove_syscall_from_profile p n) ! i"
  from assms(3) have mem: "n \<in> set ns" by (intro count_list_pos_mem) simp
  have g': "?g' = remove_from_group n ?g"
    using assms(1) by (simp add: get_syscalls_remove)
  have a: "names ?g' = Some (remove1 n ns)"
    using assms(2) mem by (simp add: g' remove_from_group_def)
  have b: "count_list (remove1 n ns) n = count_list ns n - 1"
    using mem by (rule count_list_remove1)
  have "0 < count_list (remove1 n ns) n" using b assms(3) by simp
  then have "n \<in> set (remove1 n ns)" by (rule count_list_pos_mem)
  then have "n \<in> set (get_names ?g')" by (simp add: get_names_def a)
  moreover have "?g' \<in> set (get_syscalls (remove_syscall_from_profile p n))"
    using assms(1) by (simp add: get_syscalls_remove)
  ultimately have d: "n \<in> set (all_names (remove_syscall_from_profile p n))"
    unfolding all_names_def by auto
  have e: "names ?g' = Some (takeWhile (\<lambda>x. x \<noteq> n) ns @ tl (dropWhile (\<lambda>x. x \<noteq> n) ns))"
    using a remove1_first_occurrence [of n ns] by simp
  have f: "count_list (get_names ?g') n = count_list ns n - 1"
    using a b by (simp add: get_names_def)
  from e f d show ?thesis by (simp add: set_get_all_syscalls)
qed

theorem duplicate_survives_removal_witness:
  "0 < length (get_syscalls (profile_of [[''read'', ''write'', ''read'']]))
   \<and> names (get_syscalls (profile_of [[''read'', ''write'', ''read'']]) ! 0)
       = Some [''read'', ''write'', ''read'']
   \<and> 1 < count_list [''read'', ''write'', ''read''] ''read''
   \<and> names (get_syscalls (remove_syscall_from_profile
         (profile_of [[''read'', ''write'', ''read'']]) ''read'') ! 0)
       = Some [''write'', ''read'']
   \<and> ''read'' \<in> set (get_all_syscalls (remove_syscall_from_profile
         (profile_of [[''read'', ''write'', ''read'']]) ''read''))"
proof -
  have h1: "0 < length (get_syscalls (profile_of [[''read'', ''write'', ''read'']]))"
    by (simp add: profile_defs fixture_defs)
  have h2: "names (get_syscalls (profile_of [[''read'', ''write'', ''read'']]) ! 0)
       = Some [''read'', ''write'', ''read'']"
    by (simp add: profile_defs fixture_defs)
  have h3: "1 < count_list [''read'', ''write'', ''read''] ''read''"
    by simp
  from duplicate_survives_removal [OF h1 h2 h3] h1 h2 h3 show ?thesis
    by simp
qed

section \<open>Properties of one iteration\<close>

lemma run_container_iff_running: "run_container_with_profile d \<longleftrightarrow> launch d = Running"
  by (simp add: run_container_with_profile_def launch_def split: proc.splits option.splits)

lemma verifier_raises_fails: "verifier_raises w \<Longrightarrow> \<not> test_web_functionality w"
  by (simp add: verifier_raises_def test_web_functionality_def split: http.splits if_splits)

lemma test_path_neq_working: "test_profile_path c \<noteq> working_profile_path"
  by (simp add: test_profile_path_def working_profile_path_def)

lemmas step_defs = iteration_def try_block_def save_seccomp_profile_def emit_def
  stop_container_def os_remove_def Let_def

lemmas run_defs = minimize_seccomp_profile_def stop_all_containers_def load_seccomp_profile_def
  default_profile_path_def working_profile_path_def minimized_profile_path_def
  test_profile_path_def run_container_with_profile_def test_web_functionality_def
  enumerate_eq_zip entry_state_def

lemma iteration_abort:
  "save_trial (tws c (remove_syscall_from_profile (working_profile st) c)) \<noteq> Saved \<Longrightarrow>
   \<exists>st'. iteration tws n st (i, c) = Inl (OSError (test_profile_path c), st')
     \<and> working_profile st' = working_profile st
     \<and> necessary_syscalls st' = necessary_syscalls st"
  by (cases "save_trial (tws c (remove_syscall_from_profile (working_profile st) c))")
     (simp_all add: step_defs)

lemma iteration_returns:
  "save_trial (tws c (remove_syscall_from_profile (working_profile st) c)) = Saved \<Longrightarrow>
   \<exists>st'. iteration tws n st (i, c) = Inr st'"
  by (simp add: step_defs)

lemma iteration_working:
  assumes "iteration tws n st (i, c) = Inr st'"
  shows "working_profile st' =
     (let tp = remove_syscall_from_profile (working_profile st) c; tw = tws c tp
      in if run_container_with_profile (docker tw) \<and> test_web_functionality (web tw)
         then tp else working_profile st)"
  using assms
  by (auto simp: step_defs split: save_result.splits sum.splits if_splits prod.splits)

lemma iteration_necessary:
  assumes "iteration tws n st (i, c) = Inr st'"
  shows "necessary_syscalls st' =
     (let tp = remove_syscall_from_profile (working_profile st) c; tw = tws c tp
      in if run_container_with_profile (docker tw) \<and> test_web_functionality (web tw)
            \<and> save_working tw = Saved
         then necessary_syscalls st else insert c (necessary_syscalls st))"
  using assms
  by (auto simp: step_defs split: save_result.splits sum.splits if_splits prod.splits)

lemma iteration_working_file:
  assumes "iteration tws n st (i, c) = Inr st'"
  shows "files st' working_profile_path =
     (let tp = remove_syscall_from_profile (working_profile st) c; tw = tws c tp
      in if run_container_with_profile (docker tw) \<and> test_web_functionality (web tw)
         then (case save_working tw of
                 Saved \<Rightarrow> Some (Doc tp)
               | OpenFailed \<Rightarrow> files st working_profile_path
               | WriteFailed \<Rightarrow> Some Partial)
         else files st working_profile_path)"
  using assms test_path_neq_working [of c]
  by (auto simp: step_defs split: save_result.splits sum.splits if_splits prod.splits)

lemma iteration_testing:
  assumes "iteration tws n st (i, c) = Inr st'"
  shows "testing_events (trace st') = testing_events (trace st) @ [Testing (i + 1) n c]"
  using assms
  by (auto simp: step_defs testing_events_def
      split: save_result.splits sum.splits if_splits prod.splits)

lemma result_state_working:
  "working_profile (result_state (iteration tws n st c)) = working_profile st
   \<or> working_profile (result_state (iteration tws n st c))
       = remove_syscall_from_profile (working_profile st) (snd c)"
proof (cases "iteration tws n st c")
  case (Inl e)
  show ?thesis
  proof (cases "save_trial (tws (snd c) (remove_syscall_from_profile (working_profile st) (snd c))) = Saved")
    case True
    with iteration_returns [of tws "snd c" st n "fst c"] Inl show ?thesis by simp
  next
    case False
    with iteration_abort [of tws "snd c" st n "fst c"] Inl show ?thesis
      by (auto simp: result_state_def)
  qed
next
  case (Inr st')
  then have "iteration tws n st (fst c, snd c) = Inr st'" by simp
  from iteration_working [OF this] Inr show ?thesis
    by (simp add: result_state_def Let_def)
qed

section \<open>Properties of the loop and of the run\<close>

lemma loop_step:
  "loop tws n st (c # cs) = Inr st' \<Longrightarrow>
   \<exists>st1. iteration tws n st c = Inr st1 \<and> loop tws n st1 cs = Inr st'"
  by (auto split: sum.splits)


lemma loop_testing:
  "loop tws n st cs = Inr st' \<Longrightarrow>
   testing_events (trace st')
     = testing_events (trace st) @ map (\<lambda>c. Testing (fst c + 1) n (snd c)) cs"
proof (induction cs arbitrary: st)
  case Nil
  then show ?case by simp
next
  case (Cons c cs)
  from loop_step [OF Cons.prems] obtain st1
    where it: "iteration tws n st c = Inr st1" and rest: "loop tws n st1 cs = Inr st'"
    by blast
  from it have "iteration tws n st (fst c, snd c) = Inr st1" by simp
  from iteration_testing [OF this] Cons.IH [OF rest] show ?case by simp
qed

lemma iteration_subset:
  "set (all_names (working_profile (result_state (iteration tws n st c))))
     \<subseteq> set (all_names (working_profile st))"
  using result_state_working [of tws n st c]
    set_all_names_remove_subset [of "working_profile st" "snd c"] by auto

lemma loop_subset:
  "loop tws n st cs = Inr st' \<Longrightarrow>
   set (all_names (working_profile st')) \<subseteq> set (all_names (working_profile st))"
proof (induction cs arbitrary: st)
  case Nil
  then show ?case by simp
next
  case (Cons c cs)
  from loop_step [OF Cons.prems] obtain st1
    where it: "iteration tws n st c = Inr st1" and rest: "loop tws n st1 cs = Inr st'"
    by blast
  from iteration_subset [of tws n st c] it
  have "set (all_names (working_profile st1)) \<subseteq> set (all_names (working_profile st))"
    by (simp add: result_state_def)
  with Cons.IH [OF rest] show ?case by blast
qed

lemma minimize_unfold:
  assumes "minimize_seccomp_profile w fs = Inr final"
  shows "\<exists>p st2. fs default_profile_path = Some (Doc p)
     \<and> loop (trial w) (length (get_all_syscalls p))
          (entry_state fs p)
          (enumerate 0 (get_all_syscalls p)) = Inr st2
     \<and> final = emit (Save minimized_profile_path)
          ((stop_container st2)\<lparr>files :=
             (files st2)(minimized_profile_path \<mapsto> Doc (working_profile st2))\<rparr>)"
  using assms
  by (auto simp: minimize_seccomp_profile_def load_seccomp_profile_def save_seccomp_profile_def
      stop_container_def emit_def Let_def entry_state_def
      split: sum.splits option.splits policy_file.splits save_result.splits)

section \<open>Properties of the minimization run\<close>

text \<open>
  C4: across every iteration of the loop the working policy's flattened syscall
  count does not grow and no syscall is added, whether the iteration returns or
  raises; and at run end the flattened syscall set of the final policy, which is
  the one written to the minimized profile file, is a subset of the baseline's.
\<close>

theorem working_policy_only_shrinks:
  "length (get_all_syscalls (working_profile (result_state (iteration tws n st c))))
       \<le> length (get_all_syscalls (working_profile st))
   \<and> set (get_all_syscalls (working_profile (result_state (iteration tws n st c))))
       \<subseteq> set (get_all_syscalls (working_profile st))
   \<and> (fs default_profile_path = Some (Doc baseline) \<longrightarrow>
      minimize_seccomp_profile w fs = Inr final \<longrightarrow>
        set (get_all_syscalls (working_profile final)) \<subseteq> set (get_all_syscalls baseline)
        \<and> files final minimized_profile_path = Some (Doc (working_profile final)))"
proof -
  have sub: "set (all_names (working_profile (result_state (iteration tws n st c))))
      \<subseteq> set (all_names (working_profile st))"
    by (rule iteration_subset)
  then have "card (set (all_names (working_profile (result_state (iteration tws n st c)))))
      \<le> card (set (all_names (working_profile st)))"
    by (intro card_mono) simp_all
  then have a: "length (get_all_syscalls (working_profile (result_state (iteration tws n st c))))
       \<le> length (get_all_syscalls (working_profile st))"
    by (simp add: length_get_all_syscalls)
  have b: "set (get_all_syscalls (working_profile (result_state (iteration tws n st c))))
       \<subseteq> set (get_all_syscalls (working_profile st))"
    using sub by (simp add: set_get_all_syscalls)
  have c: "set (get_all_syscalls (working_profile final)) \<subseteq> set (get_all_syscalls baseline)
        \<and> files final minimized_profile_path = Some (Doc (working_profile final))"
    if load: "fs default_profile_path = Some (Doc baseline)"
      and run: "minimize_seccomp_profile w fs = Inr final"
  proof -
    from minimize_unfold [OF run] load obtain st2 where
      lp: "loop (trial w) (length (get_all_syscalls baseline))
          (entry_state fs baseline)
          (enumerate 0 (get_all_syscalls baseline)) = Inr st2"
      and fin: "final = emit (Save minimized_profile_path)
          ((stop_container st2)\<lparr>files :=
             (files st2)(minimized_profile_path \<mapsto> Doc (working_profile st2))\<rparr>)"
      by auto
    from loop_subset [OF lp] have "set (all_names (working_profile st2)) \<subseteq> set (all_names baseline)"
      by (simp add: emit_def entry_state_def)
    with fin show ?thesis
      by (simp add: emit_def stop_container_def set_get_all_syscalls)
  qed
  from a b c show ?thesis by blast
qed

theorem working_policy_only_shrinks_witness:
  "fs_of two_calls default_profile_path
      = Some (Doc two_calls)
   \<and> (case minimize_seccomp_profile all_pass (fs_of two_calls) of
        Inl e \<Rightarrow> False
      | Inr final \<Rightarrow>
          set (get_all_syscalls (working_profile final))
            \<subseteq> set (get_all_syscalls two_calls)
          \<and> files final minimized_profile_path = Some (Doc (working_profile final)))"
proof -
  let ?p = "two_calls"
  have h1: "fs_of ?p default_profile_path = Some (Doc ?p)"
    by (simp add: fs_of_def)
  have "\<exists>final. minimize_seccomp_profile all_pass (fs_of ?p) = Inr final"
    by (simp add: run_defs profile_defs fixture_defs step_defs)
  then obtain final where h2: "minimize_seccomp_profile all_pass (fs_of ?p) = Inr final" ..
  from working_policy_only_shrinks [of _ _ _ _ "fs_of ?p" ?p all_pass final] h1 h2
  show ?thesis by simp
qed

text \<open>
  C6: when the trial of a candidate raises an exception during launch, during the
  running-state probe or during functional verification, the iteration returns
  with the candidate in the necessary set, and the working policy is the one from
  before the iteration, in memory and in the working-policy file.
\<close>

theorem trial_exception_marks_necessary:
  assumes "save_trial (tws c (remove_syscall_from_profile (working_profile st) c)) = Saved"
    and "trial_raises (tws c (remove_syscall_from_profile (working_profile st) c))"
  shows "\<exists>st'. iteration tws n st (i, c) = Inr st'
     \<and> c \<in> necessary_syscalls st'
     \<and> working_profile st' = working_profile st
     \<and> files st' working_profile_path = files st working_profile_path"
proof -
  let ?tw = "tws c (remove_syscall_from_profile (working_profile st) c)"
  from iteration_returns [of tws c st n i] assms(1)
  obtain st' where it: "iteration tws n st (i, c) = Inr st'" by blast
  from assms(2) have fail:
    "\<not> (run_container_with_profile (docker ?tw) \<and> test_web_functionality (web ?tw))"
    by (auto simp: trial_raises_def run_container_iff_running dest: verifier_raises_fails)
  from iteration_necessary [OF it] fail have "c \<in> necessary_syscalls st'"
    by (auto simp: Let_def)
  moreover from iteration_working [OF it] fail have "working_profile st' = working_profile st"
    by (auto simp: Let_def)
  moreover from iteration_working_file [OF it] fail
  have "files st' working_profile_path = files st working_profile_path"
    by (auto simp: Let_def)
  ultimately show ?thesis using it by blast
qed

theorem trial_exception_marks_necessary_witness:
  "save_trial (trial launch_times_out ''read''
      (remove_syscall_from_profile (working_profile (entry_state (fs_of two_calls) two_calls)) ''read''))
     = Saved
   \<and> trial_raises (trial launch_times_out ''read''
      (remove_syscall_from_profile (working_profile (entry_state (fs_of two_calls) two_calls)) ''read''))
   \<and> (case iteration (trial launch_times_out) 2 (entry_state (fs_of two_calls) two_calls) (0, ''read'') of
        Inl e \<Rightarrow> False
      | Inr st' \<Rightarrow> ''read'' \<in> necessary_syscalls st'
          \<and> working_profile st' = two_calls
          \<and> files st' working_profile_path = Some (Doc two_calls))"
proof -
  let ?st = "entry_state (fs_of two_calls) two_calls"
  let ?tw = "trial launch_times_out ''read''
      (remove_syscall_from_profile (working_profile ?st) ''read'')"
  have h1: "save_trial ?tw = Saved"
    by (simp add: fixture_defs)
  have h2: "trial_raises ?tw"
    by (simp add: fixture_defs trial_raises_def launch_def)
  have s: "working_profile ?st = two_calls"
    "files ?st working_profile_path = Some (Doc two_calls)"
    by (simp_all add: entry_state_def emit_def)
  from trial_exception_marks_necessary [of "trial launch_times_out" "''read''" ?st 2 0, OF h1 h2]
  show ?thesis using h1 h2 s by auto
qed

text \<open>
  C7: in a trial whose launch does not reach the running state (non-zero launch
  exit, launch timeout, failed inspection, instance not running after the settle
  delay, or an exception), the iteration only appends to the trace, and nothing
  it appends is a call of the functional verifier.
\<close>

theorem verifier_needs_running:
  assumes "launch (docker (tws c (remove_syscall_from_profile (working_profile st) c))) \<noteq> Running"
  shows "take (length (trace st)) (trace (result_state (iteration tws n st (i, c)))) = trace st
     \<and> Verify \<notin> set (drop (length (trace st)) (trace (result_state (iteration tws n st (i, c)))))"
  using assms
  by (cases "save_trial (tws c (remove_syscall_from_profile (working_profile st) c))")
     (simp_all add: step_defs result_state_def run_container_iff_running)

theorem verifier_needs_running_witness:
  "launch (docker (trial launch_times_out ''read''
      (remove_syscall_from_profile (working_profile (entry_state (fs_of two_calls) two_calls)) ''read'')))
     \<noteq> Running
   \<and> Verify \<notin> set (drop (length (trace (entry_state (fs_of two_calls) two_calls)))
        (trace (result_state (iteration (trial launch_times_out) 2
           (entry_state (fs_of two_calls) two_calls) (0, ''read'')))))
   \<and> Launch ''seccomp_test_read.json'' \<in> set (trace (result_state (iteration (trial launch_times_out) 2
           (entry_state (fs_of two_calls) two_calls) (0, ''read''))))
   \<and> Verify \<in> set (trace (result_state (iteration (trial all_pass) 2
           (entry_state (fs_of two_calls) two_calls) (0, ''read''))))"
proof -
  let ?st = "entry_state (fs_of two_calls) two_calls"
  have h: "launch (docker (trial launch_times_out ''read''
      (remove_syscall_from_profile (working_profile ?st) ''read''))) \<noteq> Running"
    by (simp add: fixture_defs launch_def)
  have l: "Launch ''seccomp_test_read.json'' \<in> set (trace (result_state (iteration (trial launch_times_out) 2
           ?st (0, ''read''))))"
    by (simp add: fixture_defs step_defs run_defs result_state_def)
  have v: "Verify \<in> set (trace (result_state (iteration (trial all_pass) 2 ?st (0, ''read''))))"
    by (simp add: fixture_defs step_defs run_defs result_state_def)
  from verifier_needs_running [of "trial launch_times_out" "''read''" ?st 2 0, OF h] h l v
  show ?thesis by simp
qed















lemma candidates_tried_testing:
  "candidates_tried (testing_events es) = candidates_tried es"
  by (induction es) (auto simp: candidates_tried_def testing_events_def split: event.splits)

lemma snd_enumerate: "map snd (enumerate k xs) = xs"
  by (simp add: enumerate_eq_zip)

text \<open>
  C9: at each iteration the next candidate is obtained by enumerating the current
  working policy, not drawn from a list computed once from the baseline. The code
  computes \<^verbatim>\<open>all_syscalls\<close> once, before the loop. For the baseline allowing read
  and write, with every trial passing, the first iteration commits the removal of
  read and the working policy then enumerates to the single name write; the second
  iteration still reports candidate 2 of 2, drawn from the baseline's list.
\<close>

theorem candidates_not_reenumerated:
  "get_all_syscalls two_calls = [''read'', ''write'']
   \<and> get_all_syscalls (working_profile (result_state
        (loop (trial all_pass) 2 (entry_state (fs_of two_calls) two_calls) [(0, ''read'')])))
       = [''write'']
   \<and> testing_events (trace (result_state
        (loop (trial all_pass) 2 (entry_state (fs_of two_calls) two_calls) [(0, ''read''), (1, ''write'')])))
       = [Testing 1 2 ''read'', Testing 2 2 ''write'']
   \<and> (case minimize_seccomp_profile all_pass (fs_of two_calls) of
        Inl e \<Rightarrow> False
      | Inr final \<Rightarrow> testing_events (trace final) = [Testing 1 2 ''read'', Testing 2 2 ''write''])"
  by (simp add: run_defs profile_defs fixture_defs step_defs result_state_def testing_events_def)

lemma iteration_commit_step:
  assumes "iteration tws n st (i, c) = Inr st'"
  shows "working_profile st' = commit_step tws (working_profile st) c"
  using iteration_working [OF assms] by (simp add: commit_step_def trial_passes_def Let_def)

lemma loop_commit_steps:
  "loop tws n st cs = Inr st' \<Longrightarrow>
   working_profile st' = foldl (commit_step tws) (working_profile st) (map snd cs)"
proof (induction cs arbitrary: st)
  case Nil
  then show ?case by simp
next
  case (Cons c cs)
  from loop_step [OF Cons.prems] obtain st1
    where it: "iteration tws n st c = Inr st1" and rest: "loop tws n st1 cs = Inr st'"
    by blast
  from it have "iteration tws n st (fst c, snd c) = Inr st1" by simp
  from iteration_commit_step [OF this] Cons.IH [OF rest] show ?case by simp
qed

lemma iteration_trial_file:
  assumes "iteration tws n st (i, c) = Inr st'"
    and "\<not> remove_trial (tws c (remove_syscall_from_profile (working_profile st) c))"
  shows "files st' (test_profile_path c)
     = Some (Doc (remove_syscall_from_profile (working_profile st) c))"
  using assms test_path_neq_working [of c]
  by (auto simp: step_defs split: save_result.splits sum.splits if_splits prod.splits)

text \<open>
  C9, as the code has it: the candidates of a run that ends are the names that
  enumerating the baseline gives, tried once each in sorted order, each reported
  with its position in that list and with the length of that list, whatever the
  trials answer and whatever was committed on the way. Only the trial policy of an
  iteration follows the commits: it is the current working policy without the
  candidate. That is the profile written to the trial file (still there after the
  iteration when the file could not be deleted) and the profile whose trial decides
  the commit, so that the final policy is the baseline folded over its own
  enumeration, each step trying the removal from the policy reached so far.
\<close>

theorem candidates_fixed_before_loop:
  "(fs default_profile_path = Some (Doc p) \<longrightarrow> minimize_seccomp_profile w fs = Inr final \<longrightarrow>
      candidates_tried (trace final) = get_all_syscalls p
      \<and> testing_events (trace final)
          = map (\<lambda>c. Testing (fst c + 1) (length (get_all_syscalls p)) (snd c))
              (enumerate 0 (get_all_syscalls p))
      \<and> working_profile final = foldl (commit_step (trial w)) p (get_all_syscalls p))
   \<and> (iteration tws n st (i, c) = Inr st' \<longrightarrow>
      working_profile st' = commit_step tws (working_profile st) c
      \<and> (\<not> remove_trial (tws c (remove_syscall_from_profile (working_profile st) c)) \<longrightarrow>
           files st' (test_profile_path c)
             = Some (Doc (remove_syscall_from_profile (working_profile st) c))))"
proof -
  have run: "candidates_tried (trace final) = get_all_syscalls p
      \<and> testing_events (trace final)
          = map (\<lambda>c. Testing (fst c + 1) (length (get_all_syscalls p)) (snd c))
              (enumerate 0 (get_all_syscalls p))
      \<and> working_profile final = foldl (commit_step (trial w)) p (get_all_syscalls p)"
    if load: "fs default_profile_path = Some (Doc p)"
      and ends: "minimize_seccomp_profile w fs = Inr final"
  proof -
    from minimize_unfold [OF ends] load obtain st2 where
      lp: "loop (trial w) (length (get_all_syscalls p)) (entry_state fs p)
            (enumerate 0 (get_all_syscalls p)) = Inr st2"
      and fin: "final = emit (Save minimized_profile_path)
            ((stop_container st2)\<lparr>files :=
               (files st2)(minimized_profile_path \<mapsto> Doc (working_profile st2))\<rparr>)"
      by auto
    have "testing_events (trace final) = testing_events (trace st2)"
      by (simp add: fin emit_def stop_container_def testing_events_def)
    also from loop_testing [OF lp]
    have "\<dots> = map (\<lambda>c. Testing (fst c + 1) (length (get_all_syscalls p)) (snd c))
             (enumerate 0 (get_all_syscalls p))"
      by (simp add: entry_state_def emit_def testing_events_def)
    finally have ev: "testing_events (trace final)
         = map (\<lambda>c. Testing (fst c + 1) (length (get_all_syscalls p)) (snd c))
             (enumerate 0 (get_all_syscalls p))" .
    have "candidates_tried (trace final) = candidates_tried (testing_events (trace final))"
      by (simp add: candidates_tried_testing)
    also have "\<dots> = map snd (enumerate 0 (get_all_syscalls p))"
      unfolding ev by (simp add: candidates_tried_def comp_def)
    finally have tried: "candidates_tried (trace final) = get_all_syscalls p"
      by (simp add: snd_enumerate)
    have "working_profile final = working_profile st2"
      by (simp add: fin emit_def stop_container_def)
    also from loop_commit_steps [OF lp]
    have "\<dots> = foldl (commit_step (trial w)) p (get_all_syscalls p)"
      by (simp add: snd_enumerate entry_state_def emit_def)
    finally show ?thesis using tried ev by simp
  qed
  have step: "working_profile st' = commit_step tws (working_profile st) c
      \<and> (\<not> remove_trial (tws c (remove_syscall_from_profile (working_profile st) c)) \<longrightarrow>
           files st' (test_profile_path c)
             = Some (Doc (remove_syscall_from_profile (working_profile st) c)))"
    if it: "iteration tws n st (i, c) = Inr st'"
    using iteration_commit_step [OF it] iteration_trial_file [OF it] by blast
  from run step show ?thesis by blast
qed

theorem candidates_fixed_before_loop_witness:
  "fs_of five_calls default_profile_path = Some (Doc five_calls)
   \<and> (case minimize_seccomp_profile needs_futex (fs_of five_calls) of
        Inl e \<Rightarrow> False
      | Inr final \<Rightarrow>
          candidates_tried (trace final) = [''futex'', ''openat'', ''read'', ''socket'', ''write'']
          \<and> working_profile final = profile_of [[], [''futex'']])
   \<and> (case loop (trial trial_files_kept) 2 (entry_state (fs_of two_calls) two_calls) [(0, ''read'')] of
        Inl e \<Rightarrow> False
      | Inr s \<Rightarrow> working_profile s = profile_of [[''write'']]
          \<and> (case iteration (trial trial_files_kept) 2 s (1, ''write'') of
                Inl e \<Rightarrow> False
              | Inr s' \<Rightarrow> working_profile s' = profile_of [[]]
                  \<and> files s' ''seccomp_test_write.json'' = Some (Doc (profile_of [[]]))))"
proof -
  let ?K = "trial trial_files_kept"
  have h1: "fs_of five_calls default_profile_path = Some (Doc five_calls)"
    by (simp add: fs_of_def)
  have "\<exists>final. minimize_seccomp_profile needs_futex (fs_of five_calls) = Inr final"
    by (simp add: run_defs profile_defs fixture_defs step_defs)
  then obtain final where h2: "minimize_seccomp_profile needs_futex (fs_of five_calls) = Inr final" ..
  have all: "get_all_syscalls five_calls = [''futex'', ''openat'', ''read'', ''socket'', ''write'']"
    by (simp add: profile_defs fixture_defs)
  have fold: "foldl (commit_step (trial needs_futex)) five_calls
      [''futex'', ''openat'', ''read'', ''socket'', ''write''] = profile_of [[], [''futex'']]"
    by (simp add: commit_step_def trial_passes_def run_defs profile_defs fixture_defs)
  have "\<exists>s. loop ?K 2 (entry_state (fs_of two_calls) two_calls) [(0, ''read'')] = Inr s
      \<and> working_profile s = profile_of [[''write'']]"
    by (simp add: run_defs profile_defs fixture_defs step_defs)
  then obtain s where h3: "loop ?K 2 (entry_state (fs_of two_calls) two_calls) [(0, ''read'')] = Inr s"
    and h4: "working_profile s = profile_of [[''write'']]" by blast
  have h5: "save_trial (?K ''write'' (remove_syscall_from_profile (working_profile s) ''write'')) = Saved"
    "\<not> remove_trial (?K ''write'' (remove_syscall_from_profile (working_profile s) ''write''))"
    by (simp_all add: fixture_defs)
  from iteration_returns [of ?K "''write''" s 2 1] h5(1)
  obtain s' where h6: "iteration ?K 2 s (1, ''write'') = Inr s'" by blast
  have rm: "remove_syscall_from_profile (profile_of [[''write'']]) ''write'' = profile_of [[]]"
    by (simp add: profile_defs fixture_defs)
  have cs: "commit_step ?K (profile_of [[''write'']]) ''write'' = profile_of [[]]"
    by (simp add: commit_step_def trial_passes_def run_defs profile_defs fixture_defs)
  have path: "test_profile_path ''write'' = ''seccomp_test_write.json''"
    by (simp add: run_defs)
  note T = candidates_fixed_before_loop [where fs = "fs_of five_calls" and p = five_calls
      and w = needs_futex and final = final and tws = ?K and n = 2 and st = s and i = 1
      and c = "''write''" and st' = s']
  from T h1 h2 h5(2) h6
  have r1: "candidates_tried (trace final) = get_all_syscalls five_calls"
    and r2: "working_profile final
        = foldl (commit_step (trial needs_futex)) five_calls (get_all_syscalls five_calls)"
    and r3: "working_profile s' = commit_step ?K (working_profile s) ''write''"
    and r4: "files s' (test_profile_path ''write'')
        = Some (Doc (remove_syscall_from_profile (working_profile s) ''write''))"
    by simp_all
  from r1 r2 have a: "candidates_tried (trace final)
        = [''futex'', ''openat'', ''read'', ''socket'', ''write'']"
    "working_profile final = profile_of [[], [''futex'']]"
    by (simp_all only: all fold)
  from r3 r4 have b: "working_profile s' = profile_of [[]]"
    "files s' ''seccomp_test_write.json'' = Some (Doc (profile_of [[]]))"
    by (simp_all only: h4 cs rm path)
  from h1 h2 h3 h4 h6 a b show ?thesis by simp
qed

text \<open>
  One iteration in a world where every trial starts, every save succeeds and
  verification passes exactly when the trial profile still allows futex.
\<close>

lemma futex_step:
  assumes saves: "\<And>c q. save_trial (tws c q) = Saved" "\<And>c q. save_working (tws c q) = Saved"
    and launches: "\<And>c q. run_container_with_profile (docker (tws c q))"
    and verify: "\<And>c q. test_web_functionality (web (tws c q)) \<longleftrightarrow> ''futex'' \<in> set (get_all_syscalls q)"
    and inv: "groups_distinct (working_profile st)" "set (all_names (working_profile st)) = S"
      "necessary_syscalls st = N"
  shows "\<exists>st'. iteration tws n st (i, c) = Inr st' \<and> groups_distinct (working_profile st')
     \<and> set (all_names (working_profile st')) = (if ''futex'' \<in> S - {c} then S - {c} else S)
     \<and> necessary_syscalls st' = (if ''futex'' \<in> S - {c} then N else insert c N)"
proof -
  let ?tp = "remove_syscall_from_profile (working_profile st) c"
  from iteration_returns [of tws c st n i] saves(1)
  obtain st' where it: "iteration tws n st (i, c) = Inr st'" by blast
  have tp: "set (all_names ?tp) = S - {c}"
    using set_all_names_remove_distinct [OF inv(1)] inv(2) by simp
  have ok: "(run_container_with_profile (docker (tws c ?tp)) \<and> test_web_functionality (web (tws c ?tp)))
      \<longleftrightarrow> ''futex'' \<in> S - {c}"
    using launches verify tp by (simp add: set_get_all_syscalls)
  have w: "working_profile st' = (if ''futex'' \<in> S - {c} then ?tp else working_profile st)"
    using iteration_working [OF it] ok by (simp add: Let_def)
  have nec: "necessary_syscalls st' = (if ''futex'' \<in> S - {c} then N else insert c N)"
    using iteration_necessary [OF it] ok saves(2) inv(3) by (simp add: Let_def)
  have gd: "groups_distinct (working_profile st')"
    using w inv(1) groups_distinct_remove by simp
  have nm: "set (all_names (working_profile st')) = (if ''futex'' \<in> S - {c} then S - {c} else S)"
    using w tp inv(2) by simp
  from it gd nm nec show ?thesis by blast
qed

text \<open>
  C2: for a baseline whose flattened syscall set is read, write, openat, futex and
  socket, each name occurring once in the policy, when every trial launch succeeds
  and verification succeeds exactly when futex is in the trial policy's flattened
  set (and the policy files can be written), the run ends, the necessary set is
  futex alone, and the final policy, as written to the minimized profile file, has
  the flattened set futex alone.
\<close>

theorem futex_scenario:
  assumes stop: "stop_all w \<noteq> StopRaised"
    and load: "fs default_profile_path = Some (Doc p)"
    and once: "distinct (extend_all [] (get_syscalls p))"
    and base: "set (get_all_syscalls p) = {''read'', ''write'', ''openat'', ''futex'', ''socket''}"
    and io: "save_initial w = Saved" "save_final w = Saved"
    and saves: "\<And>c q. save_trial (trial w c q) = Saved" "\<And>c q. save_working (trial w c q) = Saved"
    and launches: "\<And>c q. run_container_with_profile (docker (trial w c q))"
    and verify: "\<And>c q. test_web_functionality (web (trial w c q)) \<longleftrightarrow> ''futex'' \<in> set (get_all_syscalls q)"
  shows "\<exists>st. minimize_seccomp_profile w fs = Inr st
     \<and> necessary_syscalls st = {''futex''}
     \<and> set (get_all_syscalls (working_profile st)) = {''futex''}
     \<and> files st minimized_profile_path = Some (Doc (working_profile st))"
proof -
  let ?S = "{''read'', ''write'', ''openat'', ''futex'', ''socket''}"
  have names: "set (all_names p) = ?S"
    using base by (simp add: set_get_all_syscalls)
  have "?S = set [''read'', ''write'', ''openat'', ''futex'', ''socket'']" by simp
  then have "sorted_list_of_set ?S = sort (remdups [''read'', ''write'', ''openat'', ''futex'', ''socket''])"
    by (simp only: sorted_list_of_set_sort_remdups)
  then have all: "get_all_syscalls p = [''futex'', ''openat'', ''read'', ''socket'', ''write'']"
    by (simp add: get_all_syscalls_sorted_set names)
  have cands: "enumerate 0 (get_all_syscalls p)
      = [(0, ''futex''), (1, ''openat''), (2, ''read''), (3, ''socket''), (4, ''write'')]"
    by (simp add: all enumerate_eq_zip upt_rec)
  have len: "length (get_all_syscalls p) = 5"
    by (simp add: all)
  have gd0: "groups_distinct (working_profile (entry_state fs p))"
    using once by (simp add: entry_state_def emit_def distinct_all_names_groups all_names_def extend_all_concat)
  have n0: "set (all_names (working_profile (entry_state fs p))) = ?S"
    "necessary_syscalls (entry_state fs p) = {}"
    using names by (simp_all add: entry_state_def emit_def)
  note step = futex_step [of "trial w", OF saves launches verify]
  from step [OF gd0 n0, of 5 0 "''futex''"] have "\<exists>st1. iteration (trial w) 5 (entry_state fs p) (0, ''futex'') = Inr st1
      \<and> groups_distinct (working_profile st1)
      \<and> set (all_names (working_profile st1)) = ?S
      \<and> necessary_syscalls st1 = {''futex''}"
    by (simp add: insert_Diff_if)
  then obtain st1 where
    s1: "iteration (trial w) 5 (entry_state fs p) (0, ''futex'') = Inr st1"
      "groups_distinct (working_profile st1)"
      "set (all_names (working_profile st1)) = ?S" "necessary_syscalls st1 = {''futex''}"
    by blast
  from step [OF s1(2-4), of 5 1 "''openat''"] have "\<exists>st2. iteration (trial w) 5 st1 (1, ''openat'') = Inr st2
      \<and> groups_distinct (working_profile st2)
      \<and> set (all_names (working_profile st2)) = {''read'', ''write'', ''futex'', ''socket''}
      \<and> necessary_syscalls st2 = {''futex''}"
    by (simp add: insert_Diff_if)
  then obtain st2 where
    s2: "iteration (trial w) 5 st1 (1, ''openat'') = Inr st2" "groups_distinct (working_profile st2)"
      "set (all_names (working_profile st2)) = {''read'', ''write'', ''futex'', ''socket''}"
      "necessary_syscalls st2 = {''futex''}"
    by blast
  from step [OF s2(2-4), of 5 2 "''read''"] have "\<exists>st3. iteration (trial w) 5 st2 (2, ''read'') = Inr st3
      \<and> groups_distinct (working_profile st3)
      \<and> set (all_names (working_profile st3)) = {''write'', ''futex'', ''socket''}
      \<and> necessary_syscalls st3 = {''futex''}"
    by (simp add: insert_Diff_if)
  then obtain st3 where
    s3: "iteration (trial w) 5 st2 (2, ''read'') = Inr st3" "groups_distinct (working_profile st3)"
      "set (all_names (working_profile st3)) = {''write'', ''futex'', ''socket''}"
      "necessary_syscalls st3 = {''futex''}"
    by blast
  from step [OF s3(2-4), of 5 3 "''socket''"] have "\<exists>st4. iteration (trial w) 5 st3 (3, ''socket'') = Inr st4
      \<and> groups_distinct (working_profile st4)
      \<and> set (all_names (working_profile st4)) = {''write'', ''futex''}
      \<and> necessary_syscalls st4 = {''futex''}"
    by (simp add: insert_Diff_if)
  then obtain st4 where
    s4: "iteration (trial w) 5 st3 (3, ''socket'') = Inr st4" "groups_distinct (working_profile st4)"
      "set (all_names (working_profile st4)) = {''write'', ''futex''}"
      "necessary_syscalls st4 = {''futex''}"
    by blast
  from step [OF s4(2-4), of 5 4 "''write''"] have "\<exists>st5. iteration (trial w) 5 st4 (4, ''write'') = Inr st5
      \<and> groups_distinct (working_profile st5)
      \<and> set (all_names (working_profile st5)) = {''futex''}
      \<and> necessary_syscalls st5 = {''futex''}"
    by (simp add: insert_Diff_if)
  then obtain st5 where
    s5: "iteration (trial w) 5 st4 (4, ''write'') = Inr st5" "groups_distinct (working_profile st5)"
      "set (all_names (working_profile st5)) = {''futex''}"
      "necessary_syscalls st5 = {''futex''}"
    by blast
  have lp: "loop (trial w) (length (get_all_syscalls p)) (entry_state fs p)
      (enumerate 0 (get_all_syscalls p)) = Inr st5"
    unfolding cands len using s1(1) s2(1) s3(1) s4(1) s5(1) by simp
  have run: "minimize_seccomp_profile w fs =
      Inr (emit (Save minimized_profile_path)
        ((stop_container st5)\<lparr>files := (files (stop_container st5))(minimized_profile_path \<mapsto> Doc (working_profile st5))\<rparr>))"
    using stop load io lp
    by (cases "stop_all w")
       (simp_all add: minimize_seccomp_profile_def stop_all_containers_def load_seccomp_profile_def
          save_seccomp_profile_def Let_def entry_state_def stop_container_def emit_def)
  show ?thesis
    using s5 by (simp add: run emit_def stop_container_def set_get_all_syscalls)
qed

theorem futex_scenario_witness:
  "distinct (extend_all [] (get_syscalls five_calls))
   \<and> set (get_all_syscalls five_calls) = {''read'', ''write'', ''openat'', ''futex'', ''socket''}
   \<and> (case minimize_seccomp_profile needs_futex (fs_of five_calls) of
        Inl e \<Rightarrow> False
      | Inr st \<Rightarrow> necessary_syscalls st = {''futex''}
          \<and> set (get_all_syscalls (working_profile st)) = {''futex''}
          \<and> files st minimized_profile_path = Some (Doc (working_profile st)))"
proof -
  have h1: "stop_all needs_futex \<noteq> StopRaised"
    and h2: "fs_of five_calls default_profile_path = Some (Doc five_calls)"
    and h3: "distinct (extend_all [] (get_syscalls five_calls))"
    and h5: "save_initial needs_futex = Saved" "save_final needs_futex = Saved"
    by (simp_all add: profile_defs fixture_defs)
  have h4: "set (get_all_syscalls five_calls) = {''read'', ''write'', ''openat'', ''futex'', ''socket''}"
    by (auto simp: profile_defs fixture_defs)
  have h6: "save_trial (trial needs_futex c q) = Saved" "save_working (trial needs_futex c q) = Saved"
    for c q by (simp_all add: fixture_defs)
  have h7: "run_container_with_profile (docker (trial needs_futex c q))" for c q
    by (simp add: fixture_defs run_container_with_profile_def)
  have h8: "test_web_functionality (web (trial needs_futex c q))
      \<longleftrightarrow> ''futex'' \<in> set (get_all_syscalls q)" for c q
    by (simp add: fixture_defs test_web_functionality_def)
  from futex_scenario [of needs_futex "fs_of five_calls" five_calls, OF h1 h2 h3 h4 h5 h6 h7 h8]
  obtain st where r: "minimize_seccomp_profile needs_futex (fs_of five_calls) = Inr st"
    "necessary_syscalls st = {''futex''}" "set (get_all_syscalls (working_profile st)) = {''futex''}"
    "files st minimized_profile_path = Some (Doc (working_profile st))" by blast
  from r h3 h4
  show ?thesis
    by simp
qed

lemma distinct_get_all_syscalls: "distinct (get_all_syscalls p)"
  by (simp add: get_all_syscalls_def)

lemma iteration_partition:
  assumes commit: "\<And>c q. save_working (tws c q) = Saved"
    and it: "iteration tws n st (i, x) = Inr st'"
    and gd: "groups_distinct (working_profile st)"
    and fresh: "x \<notin> D"
    and nec: "necessary_syscalls st \<subseteq> D"
    and names: "set (all_names (working_profile st)) = B - (D - necessary_syscalls st)"
  shows "groups_distinct (working_profile st') \<and> necessary_syscalls st' \<subseteq> insert x D
     \<and> set (all_names (working_profile st')) = B - (insert x D - necessary_syscalls st')"
proof -
  let ?tp = "remove_syscall_from_profile (working_profile st) x"
  define ok where "ok \<longleftrightarrow>
    run_container_with_profile (docker (tws x ?tp)) \<and> test_web_functionality (web (tws x ?tp))"
  have w: "working_profile st' = (if ok then ?tp else working_profile st)"
    using iteration_working [OF it] by (simp add: Let_def ok_def)
  have n: "necessary_syscalls st' = (if ok then necessary_syscalls st else insert x (necessary_syscalls st))"
    using iteration_necessary [OF it] commit by (simp add: Let_def ok_def)
  show ?thesis
  proof (cases ok)
    case True
    then have w': "working_profile st' = ?tp" and n': "necessary_syscalls st' = necessary_syscalls st"
      using w n by simp_all
    have "set (all_names ?tp) = (B - (D - necessary_syscalls st)) - {x}"
      using set_all_names_remove_distinct [OF gd] names by simp
    also have "\<dots> = B - (insert x D - necessary_syscalls st)"
      using fresh nec by blast
    finally show ?thesis
      using w' n' groups_distinct_remove [OF gd] nec by auto
  next
    case False
    then have w': "working_profile st' = working_profile st"
      and n': "necessary_syscalls st' = insert x (necessary_syscalls st)"
      using w n by simp_all
    have "B - (D - necessary_syscalls st) = B - (insert x D - insert x (necessary_syscalls st))"
      using fresh by blast
    then show ?thesis
      using w' n' gd nec names by auto
  qed
qed

lemma loop_partition:
  assumes commit: "\<And>c q. save_working (tws c q) = Saved"
  shows "loop tws n st cs = Inr st' \<Longrightarrow> groups_distinct (working_profile st) \<Longrightarrow>
     distinct (map snd cs) \<Longrightarrow> set (map snd cs) \<inter> D = {} \<Longrightarrow>
     necessary_syscalls st \<subseteq> D \<Longrightarrow>
     set (all_names (working_profile st)) = B - (D - necessary_syscalls st) \<Longrightarrow>
     necessary_syscalls st' \<subseteq> D \<union> set (map snd cs)
     \<and> set (all_names (working_profile st')) = B - ((D \<union> set (map snd cs)) - necessary_syscalls st')"
proof (induction cs arbitrary: st D)
  case Nil
  then show ?case by simp
next
  case (Cons c cs)
  from loop_step [OF Cons.prems(1)] obtain st1
    where it: "iteration tws n st c = Inr st1" and rest: "loop tws n st1 cs = Inr st'"
    by blast
  from it have it': "iteration tws n st (fst c, snd c) = Inr st1" by simp
  from Cons.prems(3,4) have fresh: "snd c \<notin> D" by auto
  from iteration_partition [OF commit it' Cons.prems(2) fresh Cons.prems(5,6)]
  have s1: "groups_distinct (working_profile st1)"
    "necessary_syscalls st1 \<subseteq> insert (snd c) D"
    "set (all_names (working_profile st1)) = B - (insert (snd c) D - necessary_syscalls st1)"
    by simp_all
  from Cons.prems(3,4) have d: "distinct (map snd cs)" "set (map snd cs) \<inter> insert (snd c) D = {}"
    by auto
  from Cons.IH [OF rest s1(1) d s1(2,3)] show ?case by simp
qed

text \<open>
  Where no group of the baseline lists a name twice and the working profile can be
  written at every commit, the necessary set and the removed set partition the
  baseline's flattened set, and the final policy keeps exactly the necessary names.
\<close>

lemma partition_distinct_baseline:
  assumes commit: "\<And>c q. save_working (trial w c q) = Saved"
    and load: "fs default_profile_path = Some (Doc p)"
    and gd: "groups_distinct p"
    and run: "minimize_seccomp_profile w fs = Inr final"
  shows "necessary_syscalls final
       \<union> (set (get_all_syscalls p) - set (get_all_syscalls (working_profile final)))
       = set (get_all_syscalls p)
     \<and> necessary_syscalls final
       \<inter> (set (get_all_syscalls p) - set (get_all_syscalls (working_profile final))) = {}
     \<and> set (get_all_syscalls (working_profile final)) = necessary_syscalls final"
proof -
  from minimize_unfold [OF run] load obtain st2 where
    lp: "loop (trial w) (length (get_all_syscalls p)) (entry_state fs p)
          (enumerate 0 (get_all_syscalls p)) = Inr st2"
    and fin: "final = emit (Save minimized_profile_path)
          ((stop_container st2)\<lparr>files :=
             (files st2)(minimized_profile_path \<mapsto> Doc (working_profile st2))\<rparr>)"
    by auto
  have e: "working_profile (entry_state fs p) = p" "necessary_syscalls (entry_state fs p) = {}"
    by (simp_all add: entry_state_def emit_def)
  have m: "map snd (enumerate 0 (get_all_syscalls p)) = get_all_syscalls p"
    by (simp add: enumerate_eq_zip)
  from loop_partition [of "trial w" _ "entry_state fs p" "enumerate 0 (get_all_syscalls p)" st2
      "{}" "set (all_names p)", OF commit lp]
  have "necessary_syscalls st2 \<subseteq> set (all_names p)
     \<and> set (all_names (working_profile st2)) = set (all_names p) - (set (all_names p) - necessary_syscalls st2)"
    using gd by (simp add: e m distinct_get_all_syscalls set_get_all_syscalls)
  then have "necessary_syscalls st2 \<subseteq> set (all_names p)"
    and "set (all_names (working_profile st2)) = necessary_syscalls st2"
    by auto
  then show ?thesis
    unfolding fin by (auto simp: emit_def stop_container_def set_get_all_syscalls)
qed

text \<open>
  C3: at run end the necessary set and the removed set (the baseline's flattened
  set minus the final policy's) are disjoint and their union is the baseline's
  flattened set. For a baseline whose only group lists read twice, with every trial
  passing, the trial of read succeeds and is committed, yet the committed profile
  still lists read: read is neither necessary nor removed.
\<close>

theorem partition_fails_on_duplicate:
  "get_all_syscalls (profile_of [[''read'', ''read'']]) = [''read'']
   \<and> (case minimize_seccomp_profile all_pass (fs_of (profile_of [[''read'', ''read'']])) of
        Inl e \<Rightarrow> False
      | Inr final \<Rightarrow> necessary_syscalls final = {}
          \<and> working_profile final = profile_of [[''read'']]
          \<and> set (get_all_syscalls (profile_of [[''read'', ''read'']]))
               - set (get_all_syscalls (working_profile final)) = {}
          \<and> necessary_syscalls final
               \<union> (set (get_all_syscalls (profile_of [[''read'', ''read'']]))
                   - set (get_all_syscalls (working_profile final)))
             \<noteq> set (get_all_syscalls (profile_of [[''read'', ''read'']])))"
  by (simp add: run_defs profile_defs fixture_defs step_defs)

text \<open>
  A second way to the same end: the loop assigns the working profile before it
  saves it, so when that save fails the candidate is both removed and necessary.
\<close>

lemma commit_save_failure_overlap:
  "(case minimize_seccomp_profile commit_unwritable (fs_of two_calls) of
        Inl e \<Rightarrow> False
      | Inr final \<Rightarrow> ''read'' \<in> necessary_syscalls final
          \<and> ''read'' \<in> set (get_all_syscalls two_calls)
                - set (get_all_syscalls (working_profile final)))"
  by (simp add: run_defs profile_defs fixture_defs step_defs)

end
